theory Spec2Isabelle
  imports Main "HOL-Library.Word"
begin

unbundle bit_operations_syntax

section \<open>The SH soft-float exception trigger (libgcc/config/sh/sfp-exceptions.c)\<close>

subsection \<open>Build configuration and the exception-kind constants\<close>

text \<open>
  The body of \<open>__sfp_handle_exceptions\<close> is selected by two preprocessor macros:
  \<open>__SH_FPU_ANY__\<close> (the target has a floating-point unit) and \<open>__SH2E__\<close> (the
  reduced unit). A configuration records which of them are defined.
\<close>

record config =
  sh_fpu_any :: bool
  sh2e :: bool

datatype fp_kind = INEXACT | UNDERFLOW | OVERFLOW | DIVZERO | INVALID

type_synonym c_int = "32 word"

text \<open>
  The constants \<open>FP_EX_INEXACT\<close> ... \<open>FP_EX_INVALID\<close> come from \<open>sfp-machine.h\<close>,
  which is not part of the source at hand. They are a parameter of the model.
\<close>

record fp_ex =
  FP_EX_INEXACT :: c_int
  FP_EX_UNDERFLOW :: c_int
  FP_EX_OVERFLOW :: c_int
  FP_EX_DIVZERO :: c_int
  FP_EX_INVALID :: c_int

subsection \<open>The inline assembly statements\<close>

text \<open>
  Each trigger is one \<open>__asm__ __volatile__\<close> statement on two C variables. A variable is
  modelled by its declared type and the constant that initialises it: \<open>Lit n\<close> is the
  integer-valued literal (\<open>1.0\<close>, \<open>3.0\<close>, \<open>0.0\<close>, \<open>10\<close>), \<open>Ldbl_min\<close> and \<open>Ldbl_max\<close> are
  \<open>__LDBL_MIN__\<close> and \<open>__LDBL_MAX__\<close>, and \<open>Huge_val\<close> is \<open>__builtin_huge_val ()\<close>.
  \<open>Asm op a b\<close> is the instruction \<open>op a, b\<close> after operand substitution, so
  \<open>"fdiv %1, %0" : "+d" (d) : "d" (x)\<close> is \<open>Asm FDIV x d\<close>.
\<close>

datatype c_type = Double | Long_double

datatype fp_const = Lit int | Ldbl_min | Ldbl_max | Huge_val

datatype operand = Var (ctype: c_type) (init: fp_const)

datatype mnemonic = FDIV | FMUL

datatype fp_insn = Asm (opcode: mnemonic) (frm: operand) (frn: operand)

subsection \<open>The routine\<close>

text \<open>
  The routine only issues instructions; what an instruction does is the processor's
  business. The model therefore takes the effect of one \<open>asm\<close> statement on the machine
  as the parameter \<open>asm\<close> and threads the machine state through the checks in program
  order. The two \<open>#if\<close> levels are the two outer conditionals.
\<close>

definition sfp_handle_exceptions ::
  "(fp_insn \<Rightarrow> 'm \<Rightarrow> 'm) \<Rightarrow> config \<Rightarrow> fp_ex \<Rightarrow> c_int \<Rightarrow> 'm \<Rightarrow> 'm" where
  "sfp_handle_exceptions asm cfg C fex m0 =
     (if sh_fpu_any cfg then
        let m3 =
              (if \<not> sh2e cfg then
                 let m1 = (if fex AND FP_EX_INEXACT C \<noteq> 0
                           then asm (Asm FDIV (Var Double (Lit 3)) (Var Double (Lit 1))) m0
                           else m0);
                     m2 = (if fex AND FP_EX_UNDERFLOW C \<noteq> 0
                           then asm (Asm FDIV (Var Long_double (Lit 10)) (Var Long_double Ldbl_min)) m1
                           else m1)
                 in (if fex AND FP_EX_OVERFLOW C \<noteq> 0
                     then asm (Asm FMUL (Var Long_double Ldbl_max) (Var Long_double Ldbl_max)) m2
                     else m2)
               else m0);
            m4 = (if fex AND FP_EX_DIVZERO C \<noteq> 0
                  then asm (Asm FDIV (Var Double (Lit 0)) (Var Double (Lit 1))) m3
                  else m3)
        in (if fex AND FP_EX_INVALID C \<noteq> 0
            then asm (Asm FMUL (Var Double (Lit 0)) (Var Double Huge_val)) m4
            else m4)
      else m0)"

text \<open>
  The instructions the routine issues, in program order, when control falls through
  every check: the routine run on a machine that only logs.
\<close>

definition trace :: "config \<Rightarrow> fp_ex \<Rightarrow> c_int \<Rightarrow> fp_insn list" where
  "trace cfg C fex = sfp_handle_exceptions (\<lambda>i t. t @ [i]) cfg C fex []"

subsection \<open>Names for the parts of the source\<close>

text \<open>The \<open>asm\<close> statement guarded by the test of each kind's constant.\<close>

fun trigger :: "fp_kind \<Rightarrow> fp_insn" where
  "trigger INEXACT = Asm FDIV (Var Double (Lit 3)) (Var Double (Lit 1))"
| "trigger UNDERFLOW = Asm FDIV (Var Long_double (Lit 10)) (Var Long_double Ldbl_min)"
| "trigger OVERFLOW = Asm FMUL (Var Long_double Ldbl_max) (Var Long_double Ldbl_max)"
| "trigger DIVZERO = Asm FDIV (Var Double (Lit 0)) (Var Double (Lit 1))"
| "trigger INVALID = Asm FMUL (Var Double (Lit 0)) (Var Double Huge_val)"

text \<open>The constant each kind's check tests.\<close>

fun FP_EX :: "fp_ex \<Rightarrow> fp_kind \<Rightarrow> c_int" where
  "FP_EX C INEXACT = FP_EX_INEXACT C"
| "FP_EX C UNDERFLOW = FP_EX_UNDERFLOW C"
| "FP_EX C OVERFLOW = FP_EX_OVERFLOW C"
| "FP_EX C DIVZERO = FP_EX_DIVZERO C"
| "FP_EX C INVALID = FP_EX_INVALID C"

text \<open>The C test \<open>_fex & FP_EX_k\<close> of a kind's check.\<close>

definition requested :: "fp_ex \<Rightarrow> c_int \<Rightarrow> fp_kind \<Rightarrow> bool" where
  "requested C fex k = (fex AND FP_EX C k \<noteq> 0)"

text \<open>Whether a kind's check is compiled in under a configuration.\<close>

fun supported :: "config \<Rightarrow> fp_kind \<Rightarrow> bool" where
  "supported cfg DIVZERO = sh_fpu_any cfg"
| "supported cfg INVALID = sh_fpu_any cfg"
| "supported cfg k = (sh_fpu_any cfg \<and> \<not> sh2e cfg)"

definition program_order :: "fp_kind list" where
  "program_order = [INEXACT, UNDERFLOW, OVERFLOW, DIVZERO, INVALID]"

text \<open>
  One assignment of the constants, used to instantiate the theorems at concrete inputs:
  five distinct single bits (bits 2 to 6, the flag field of the SH status register
  FPSCR). The general theorems hold for every assignment.
\<close>

definition example_fp_ex :: fp_ex where
  "example_fp_ex = \<lparr>FP_EX_INEXACT = 4, FP_EX_UNDERFLOW = 8, FP_EX_OVERFLOW = 16,
     FP_EX_DIVZERO = 32, FP_EX_INVALID = 64\<rparr>"

definition cfg_full :: config where
  "cfg_full = \<lparr>sh_fpu_any = True, sh2e = False\<rparr>"

definition cfg_sh2e :: config where
  "cfg_sh2e = \<lparr>sh_fpu_any = True, sh2e = True\<rparr>"

definition cfg_nofpu :: config where
  "cfg_nofpu = \<lparr>sh_fpu_any = False, sh2e = False\<rparr>"


text \<open>The five constants together: the bits of a mask that some check tests.\<close>

definition recognized :: "fp_ex \<Rightarrow> c_int" where
  "recognized C = FP_EX_INEXACT C OR FP_EX_UNDERFLOW C OR FP_EX_OVERFLOW C OR
     FP_EX_DIVZERO C OR FP_EX_INVALID C"

text \<open>
  The constants of two different kinds share no bit. Distinct single bits, which is what
  the spec takes the constants to be, are of this form (lemma \<open>single_bits_disjoint\<close>).
\<close>

definition disjoint_consts :: "fp_ex \<Rightarrow> bool" where
  "disjoint_consts C =
     list_all (\<lambda>j. list_all (\<lambda>k. j = k \<or> FP_EX C j AND FP_EX C k = 0) program_order)
       program_order"

text \<open>
  What an instruction computes. On SH, \<open>fdiv FRm, FRn\<close> stores \<open>FRn / FRm\<close> in
  \<open>FRn\<close>, and \<open>fmul FRm, FRn\<close> stores \<open>FRn * FRm\<close> in \<open>FRn\<close>: \<open>Divide a b\<close> is
  the quotient of \<open>a\<close> by \<open>b\<close>, \<open>Multiply a b\<close> the product of \<open>a\<close> and \<open>b\<close>.
\<close>

datatype arith = Divide operand operand | Multiply operand operand

fun arith_of :: "fp_insn \<Rightarrow> arith" where
  "arith_of (Asm FDIV m n) = Divide n m"
| "arith_of (Asm FMUL m n) = Multiply n m"

section \<open>The floating-point unit\<close>

text \<open>
  The processor is the routine's environment. Its state is the flag field and the
  enable field of the status register, whether control is still in the routine or has
  been diverted by a trap (and at which instruction), and the instructions executed so
  far. Which exception conditions an instruction raises is the parameter \<open>raises\<close>.
  A condition sets its sticky flag; when one of the raised conditions is enabled the
  instruction traps, and once control is diverted nothing more of the routine executes.
\<close>

datatype control = Running | Trapped fp_insn

record fpu =
  flag :: "fp_kind set"
  enable :: "fp_kind set"
  control :: control
  executed :: "fp_insn list"

definition fpu_asm :: "(fp_insn \<Rightarrow> fp_kind set) \<Rightarrow> fp_insn \<Rightarrow> fpu \<Rightarrow> fpu" where
  "fpu_asm raises i m =
     (case control m of
        Trapped j \<Rightarrow> m
      | Running \<Rightarrow>
          m\<lparr>flag := flag m \<union> raises i,
            control := (if raises i \<inter> enable m = {} then Running else Trapped i),
            executed := executed m @ [i]\<rparr>)"

definition run ::
  "(fp_insn \<Rightarrow> fp_kind set) \<Rightarrow> config \<Rightarrow> fp_ex \<Rightarrow> c_int \<Rightarrow> fpu \<Rightarrow> fpu" where
  "run raises cfg C fex m = sfp_handle_exceptions (fpu_asm raises) cfg C fex m"

text \<open>
  Modelled from the spec: the processor's response to each trigger, which is not part of
  the source. The table of section 4.1 gives every trigger exactly one condition, that of
  its kind; any other instruction raises nothing.
\<close>

definition spec_raises :: "fp_insn \<Rightarrow> fp_kind set" where
  "spec_raises i = set (filter (\<lambda>k. trigger k = i) program_order)"

definition flags_only_fpu :: fpu where
  "flags_only_fpu = \<lparr>flag = {}, enable = {}, control = Running, executed = []\<rparr>"

definition trapping_fpu :: fpu where
  "trapping_fpu = \<lparr>flag = {}, enable = {INEXACT, UNDERFLOW, OVERFLOW, DIVZERO, INVALID},
     control = Running, executed = []\<rparr>"

definition invalid_only_fpu :: fpu where
  "invalid_only_fpu = \<lparr>flag = {}, enable = {INVALID}, control = Running, executed = []\<rparr>"


section \<open>Basic facts\<close>

lemma sfp_handle_exceptions_fold:
  "sfp_handle_exceptions asm cfg C fex m = fold asm (trace cfg C fex) m"
  by (simp add: sfp_handle_exceptions_def trace_def Let_def)

lemma trace_filter:
  "trace cfg C fex =
     map trigger (filter (\<lambda>k. supported cfg k \<and> requested C fex k) program_order)"
  by (simp add: sfp_handle_exceptions_def trace_def Let_def program_order_def requested_def)

subsection \<open>Masks\<close>

lemma in_program_order: "k \<in> set program_order"
  by (cases k) (simp_all add: program_order_def)

lemma trigger_inj: "trigger j = trigger k \<longleftrightarrow> j = k"
  by (cases j; cases k) simp_all

lemma and_or_nonzero:
  "((a OR b) AND (c::c_int) \<noteq> 0) = (a AND c \<noteq> 0 \<or> b AND c \<noteq> 0)"
  by (simp add: bit.conj_disj_distrib2 or_eq_0_iff)

lemma and_mask_absorb:
  fixes x :: c_int
  assumes "m AND c = c"
  shows "(x AND m) AND c = x AND c"
  using assms by (simp add: and.assoc)

lemma recognized_absorbs: "recognized C AND FP_EX C k = FP_EX C k"
  by (cases k) (simp_all add: recognized_def bit_eq_iff bit_and_iff bit_or_iff, blast+)

lemma requested_restrict: "requested C (fex AND recognized C) k = requested C fex k"
  by (simp add: requested_def and_mask_absorb recognized_absorbs)

lemma requested_or: "requested C (a OR b) k = (requested C a k \<or> requested C b k)"
  unfolding requested_def by (rule and_or_nonzero)

lemma single_bits_disjoint:
  "a \<noteq> b \<Longrightarrow> (push_bit a 1 :: c_int) AND push_bit b 1 = 0"
  by (rule bit_eqI) (auto simp add: bit_and_iff bit_push_bit_iff bit_1_iff bit_exp_iff)

lemma disjoint_constsD:
  assumes "disjoint_consts C" and "j \<noteq> k"
  shows "FP_EX C j AND FP_EX C k = 0"
proof -
  have "j \<in> set program_order" and "k \<in> set program_order"
    by (rule in_program_order)+
  with assms show ?thesis
    by (auto simp add: disjoint_consts_def list_all_iff)
qed



lemma trigger_in_trace:
  "trigger k \<in> set (trace cfg C fex) \<longleftrightarrow> supported cfg k \<and> requested C fex k"
  using in_program_order [of k] by (auto simp add: trace_filter trigger_inj)

lemma only_bits:
  fixes x :: c_int
  assumes "x AND NOT m = 0" and "m AND c = 0"
  shows "x AND c = 0"
proof (rule bit_eqI)
  fix n
  assume "possible_bit TYPE(c_int) n"
  have a: "\<not> bit (x AND NOT m) n" and b: "\<not> bit (m AND c) n"
    using assms by simp_all
  then show "bit (x AND c) n = bit (0::c_int) n"
    by (auto simp add: bit_and_iff bit_not_iff dest: bit_imp_le_length)
qed

lemma recognized_disjoint:
  assumes "disjoint_consts C"
  shows "(FP_EX_INEXACT C OR FP_EX_UNDERFLOW C OR FP_EX_OVERFLOW C) AND FP_EX_DIVZERO C = 0"
    and "(FP_EX_INEXACT C OR FP_EX_UNDERFLOW C OR FP_EX_OVERFLOW C) AND FP_EX_INVALID C = 0"
  using disjoint_constsD [OF assms, of INEXACT DIVZERO]
    disjoint_constsD [OF assms, of UNDERFLOW DIVZERO]
    disjoint_constsD [OF assms, of OVERFLOW DIVZERO]
    disjoint_constsD [OF assms, of INEXACT INVALID]
    disjoint_constsD [OF assms, of UNDERFLOW INVALID]
    disjoint_constsD [OF assms, of OVERFLOW INVALID]
  by (simp_all add: bit.conj_disj_distrib2)

lemma all_fp_kind:
  "(\<forall>k. P k) \<longleftrightarrow> P INEXACT \<and> P UNDERFLOW \<and> P OVERFLOW \<and> P DIVZERO \<and> P INVALID"
  by (metis fp_kind.exhaust)

lemma disjoint_example: "disjoint_consts example_fp_ex"
  by (simp add: disjoint_consts_def program_order_def example_fp_ex_def)

subsection \<open>Running on the floating-point unit\<close>

lemma spec_raises_trigger: "spec_raises (trigger k) = {k}"
  by (cases k) (simp_all add: spec_raises_def program_order_def)

lemma fold_fpu_asm_trapped:
  "control m = Trapped j \<Longrightarrow> fold (fpu_asm raises) is m = m"
  by (induction "is") (simp_all add: fpu_asm_def)

lemma fold_fpu_asm_flags_only:
  "enable m = {} \<Longrightarrow> control m = Running \<Longrightarrow>
   fold (fpu_asm raises) is m =
     m\<lparr>flag := flag m \<union> \<Union> (raises ` set is), executed := executed m @ is\<rparr>"
proof (induction "is" arbitrary: m)
  case Nil
  then show ?case by simp
next
  case (Cons i "is")
  let ?m = "fpu_asm raises i m"
  have step: "?m = m\<lparr>flag := flag m \<union> raises i, executed := executed m @ [i]\<rparr>"
    using Cons.prems by (simp add: fpu_asm_def)
  then have "enable ?m = {}" and "control ?m = Running"
    using Cons.prems by simp_all
  then have "fold (fpu_asm raises) is ?m =
      ?m\<lparr>flag := flag ?m \<union> \<Union> (raises ` set is), executed := executed ?m @ is\<rparr>"
    by (rule Cons.IH)
  then show ?case
    by (simp add: step Un_assoc)
qed

lemma fold_fpu_asm_enable:
  "enable (fold (fpu_asm raises) is m) = enable m"
  by (induction "is" arbitrary: m) (simp_all add: fpu_asm_def split: control.splits)

lemma fold_fpu_asm_control:
  "control m = Running \<Longrightarrow>
   control (fold (fpu_asm raises) is m) =
     (case find (\<lambda>i. raises i \<inter> enable m \<noteq> {}) is of
        None \<Rightarrow> Running | Some i \<Rightarrow> Trapped i)"
proof (induction "is" arbitrary: m)
  case Nil
  then show ?case by simp
next
  case (Cons i "is")
  show ?case
  proof (cases "raises i \<inter> enable m = {}")
    case True
    then have "control (fpu_asm raises i m) = Running"
      and "enable (fpu_asm raises i m) = enable m"
      using Cons.prems by (simp_all add: fpu_asm_def)
    with Cons.IH [of "fpu_asm raises i m"] True show ?thesis by simp
  next
    case False
    then have "control (fpu_asm raises i m) = Trapped i"
      using Cons.prems by (simp add: fpu_asm_def)
    then show ?thesis
      using False by (simp add: fold_fpu_asm_trapped)
  qed
qed

lemma run_fold: "run raises cfg C fex m = fold (fpu_asm raises) (trace cfg C fex) m"
  by (simp add: run_def sfp_handle_exceptions_fold)

text \<open>
  On a full-FPU configuration the overflow check precedes the divide-by-zero check, so
  whenever the overflow trigger runs and traps, the trap taken is not the one of the
  divide-by-zero trigger.
\<close>

lemma divzero_trap_not_first_full_fpu:
  assumes "sh_fpu_any cfg" and "\<not> sh2e cfg" and "control m = Running"
    and "requested C fex OVERFLOW" and "raises (trigger OVERFLOW) \<inter> enable m \<noteq> {}"
  shows "control (run raises cfg C fex m) \<noteq> Trapped (trigger DIVZERO)"
proof -
  have "control (run raises cfg C fex m) =
      (case find (\<lambda>i. raises i \<inter> enable m \<noteq> {}) (trace cfg C fex) of
         None \<Rightarrow> Running | Some i \<Rightarrow> Trapped i)"
    by (simp only: run_fold fold_fpu_asm_control [OF assms(3)])
  then show ?thesis
    using assms(1,2,4,5) by (simp add: trace_filter program_order_def)
qed

section \<open>Order of the triggers\<close>

text \<open>
  C1. On a full-FPU configuration (\<open>__SH_FPU_ANY__\<close> defined, \<open>__SH2E__\<close> not), for
  every mask the instructions issued are exactly the triggers of the kinds whose test
  \<open>_fex & FP_EX_k\<close> is non-zero, in the order INEXACT, UNDERFLOW, OVERFLOW,
  DIVIDE-BY-ZERO, INVALID, and nothing else is issued between them.
\<close>

theorem trigger_sequence_full_fpu:
  assumes "sh_fpu_any cfg" and "\<not> sh2e cfg"
  shows "trace cfg C fex =
           map trigger (filter (requested C fex) [INEXACT, UNDERFLOW, OVERFLOW, DIVZERO, INVALID])"
  using assms by (simp add: trace_filter program_order_def)

theorem trigger_sequence_full_fpu_witness:
  "sh_fpu_any cfg_full \<and> \<not> sh2e cfg_full \<and>
   trace cfg_full example_fp_ex 104 = [trigger UNDERFLOW, trigger DIVZERO, trigger INVALID]"
proof -
  have a: "sh_fpu_any cfg_full" and b: "\<not> sh2e cfg_full"
    by (simp_all add: cfg_full_def)
  show ?thesis
    using a b trigger_sequence_full_fpu [OF a b, of example_fp_ex 104]
    by (simp add: requested_def example_fp_ex_def)
qed

section \<open>Single-kind masks\<close>




section \<open>Traps and the order of the checks\<close>

text \<open>
  C3. The comment at the head of the routine wants the overflow and underflow exceptions
  to follow the divide-by-zero exception. The code tests \<open>FP_EX_OVERFLOW\<close> before
  \<open>FP_EX_DIVZERO\<close>: on a full-FPU configuration with every trap enabled, the mask
  \<open>FP_EX_OVERFLOW | FP_EX_DIVZERO\<close> executes the overflow trigger only, and the trap
  taken is the overflow trap, not the divide-by-zero trap.
\<close>

theorem overflow_trap_diverts_before_divzero:
  "executed (run spec_raises cfg_full example_fp_ex 48 trapping_fpu) = [trigger OVERFLOW] \<and>
   control (run spec_raises cfg_full example_fp_ex 48 trapping_fpu) = Trapped (trigger OVERFLOW)"
  by (simp add: run_def sfp_handle_exceptions_def cfg_full_def example_fp_ex_def
      trapping_fpu_def fpu_asm_def spec_raises_def program_order_def)

text \<open>
  C4, as stated, fails: with every kind requested on a full-FPU configuration and every
  trap enabled, the only instruction executed is the INEXACT trigger, and the trap taken
  is not the one of the INVALID trigger.
\<close>

theorem all_kinds_trap_counterexample:
  "executed (run spec_raises cfg_full example_fp_ex 124 trapping_fpu) = [trigger INEXACT] \<and>
   control (run spec_raises cfg_full example_fp_ex 124 trapping_fpu) \<noteq> Trapped (trigger INVALID)"
  by (simp add: run_def sfp_handle_exceptions_def cfg_full_def example_fp_ex_def
      trapping_fpu_def fpu_asm_def spec_raises_def program_order_def)

text \<open>
  C4, amended. With the bit of every supported kind set, the trap taken is the one at the
  INVALID trigger if and only if that trigger traps and the trigger of no other supported
  kind does: the INVALID check is the last one, and any trigger that traps before it
  diverts control first.
\<close>

theorem invalid_trap_observed_iff:
  assumes "sh_fpu_any cfg" and "control m = Running"
    and "\<forall>k. supported cfg k \<longrightarrow> requested C fex k"
  shows "control (run raises cfg C fex m) = Trapped (trigger INVALID) \<longleftrightarrow>
         raises (trigger INVALID) \<inter> enable m \<noteq> {} \<and>
         (\<forall>k. supported cfg k \<and> k \<noteq> INVALID \<longrightarrow> raises (trigger k) \<inter> enable m = {})"
proof -
  have t: "trace cfg C fex = map trigger (filter (supported cfg) program_order)"
    unfolding trace_filter using assms(3)
    by (auto intro: arg_cong [where f = "map trigger"] filter_cong)
  have c: "control (run raises cfg C fex m) =
      (case find (\<lambda>i. raises i \<inter> enable m \<noteq> {})
              (map trigger (filter (supported cfg) program_order)) of
         None \<Rightarrow> Running | Some i \<Rightarrow> Trapped i)"
    by (simp only: run_fold t fold_fpu_asm_control [OF assms(2)])
  show ?thesis
    unfolding c using assms(1)
    by (cases "sh2e cfg") (auto simp add: program_order_def all_fp_kind)
qed

theorem invalid_trap_observed_iff_witness:
  "control invalid_only_fpu = Running \<and>
   control (run spec_raises cfg_full example_fp_ex 124 invalid_only_fpu) =
     Trapped (trigger INVALID)"
proof -
  have a: "sh_fpu_any cfg_full"
    by (simp add: cfg_full_def)
  have b: "control invalid_only_fpu = Running"
    by (simp add: invalid_only_fpu_def)
  have c: "\<forall>k. supported cfg_full k \<longrightarrow> requested example_fp_ex 124 k"
    by (simp add: all_fp_kind requested_def example_fp_ex_def)
  have d: "spec_raises (trigger INVALID) \<inter> enable invalid_only_fpu \<noteq> {} \<and>
      (\<forall>k. supported cfg_full k \<and> k \<noteq> INVALID \<longrightarrow>
         spec_raises (trigger k) \<inter> enable invalid_only_fpu = {})"
    by (simp add: all_fp_kind spec_raises_def program_order_def invalid_only_fpu_def)
  show ?thesis
    using b d invalid_trap_observed_iff [where raises = spec_raises, OF a b c] by simp
qed

section \<open>Reduced and absent floating-point units\<close>

text \<open>
  C5. On the reduced configuration (\<open>__SH_FPU_ANY__\<close> and \<open>__SH2E__\<close> defined), a mask
  made only of INEXACT, UNDERFLOW and OVERFLOW bits issues no instruction and leaves the
  unit as it was (the constants of different kinds sharing no bit). The instructions
  issued are the DIVIDE-BY-ZERO and INVALID triggers of the requested kinds, and they are
  exactly what the full-FPU body issues after its INEXACT, UNDERFLOW and OVERFLOW part.
\<close>

theorem reduced_fpu_triggers:
  assumes "sh_fpu_any cfg" and "sh2e cfg"
  shows "(disjoint_consts C \<and>
          fex AND NOT (FP_EX_INEXACT C OR FP_EX_UNDERFLOW C OR FP_EX_OVERFLOW C) = 0 \<longrightarrow>
            trace cfg C fex = [] \<and> run raises cfg C fex m = m) \<and>
         trace cfg C fex = map trigger (filter (requested C fex) [DIVZERO, INVALID]) \<and>
         trace (cfg\<lparr>sh2e := False\<rparr>) C fex =
           map trigger (filter (requested C fex) [INEXACT, UNDERFLOW, OVERFLOW]) @ trace cfg C fex"
proof -
  have t: "trace cfg C fex = map trigger (filter (requested C fex) [DIVZERO, INVALID])"
    using assms by (simp add: trace_filter program_order_def)
  have f: "trace (cfg\<lparr>sh2e := False\<rparr>) C fex =
      map trigger (filter (requested C fex) [INEXACT, UNDERFLOW, OVERFLOW]) @ trace cfg C fex"
    using assms by (simp add: trace_filter program_order_def)
  have n: "trace cfg C fex = [] \<and> run raises cfg C fex m = m"
    if d: "disjoint_consts C"
      and o: "fex AND NOT (FP_EX_INEXACT C OR FP_EX_UNDERFLOW C OR FP_EX_OVERFLOW C) = 0"
  proof -
    have "fex AND FP_EX_DIVZERO C = 0" and "fex AND FP_EX_INVALID C = 0"
      using only_bits [OF o] recognized_disjoint [OF d] by simp_all
    then have "trace cfg C fex = []"
      by (simp add: t requested_def)
    then show ?thesis
      by (simp add: run_fold)
  qed
  show ?thesis
    using t f n by blast
qed

theorem reduced_fpu_triggers_witness:
  "trace cfg_sh2e example_fp_ex 28 = [] \<and>
   run spec_raises cfg_sh2e example_fp_ex 28 trapping_fpu = trapping_fpu \<and>
   trace cfg_sh2e example_fp_ex 124 = [trigger DIVZERO, trigger INVALID] \<and>
   trace cfg_full example_fp_ex 124 =
     [trigger INEXACT, trigger UNDERFLOW, trigger OVERFLOW] @ trace cfg_sh2e example_fp_ex 124"
proof -
  have a: "sh_fpu_any cfg_sh2e" and b: "sh2e cfg_sh2e"
    by (simp_all add: cfg_sh2e_def)
  have o: "(28::c_int) AND NOT (FP_EX_INEXACT example_fp_ex OR FP_EX_UNDERFLOW example_fp_ex OR
      FP_EX_OVERFLOW example_fp_ex) = 0"
    by (simp add: example_fp_ex_def)
  have e: "cfg_sh2e\<lparr>sh2e := False\<rparr> = cfg_full"
    by (simp add: cfg_sh2e_def cfg_full_def)
  show ?thesis
    using disjoint_example o
      reduced_fpu_triggers [OF a b, of example_fp_ex 28 spec_raises trapping_fpu]
      reduced_fpu_triggers [OF a b, of example_fp_ex 124 spec_raises trapping_fpu]
    by (simp add: e requested_def example_fp_ex_def)
qed

text \<open>
  C6. Without \<open>__SH_FPU_ANY__\<close> the body is empty: for every mask no instruction is
  issued, and the routine returns with the machine, whatever it is, unchanged.
\<close>

theorem no_fpu_no_effect:
  assumes "\<not> sh_fpu_any cfg"
  shows "trace cfg C fex = [] \<and> sfp_handle_exceptions asm cfg C fex s = s \<and>
         run raises cfg C fex m = m"
  using assms by (simp add: trace_def run_def sfp_handle_exceptions_def)

theorem no_fpu_no_effect_witness:
  "\<not> sh_fpu_any cfg_nofpu \<and> trace cfg_nofpu example_fp_ex 124 = [] \<and>
   run spec_raises cfg_nofpu example_fp_ex 124 trapping_fpu = trapping_fpu"
proof -
  have a: "\<not> sh_fpu_any cfg_nofpu"
    by (simp add: cfg_nofpu_def)
  show ?thesis
    using a no_fpu_no_effect [OF a, of example_fp_ex 124 "fpu_asm spec_raises" trapping_fpu
        spec_raises trapping_fpu]
    by simp
qed

section \<open>Flags\<close>

text \<open>
  C7. On a unit with no trap enabled, from any flags, calling the routine a second time
  with the same mask (a single-kind mask in particular) leaves the flags as the first
  call left them, and both calls return. This holds whatever conditions the
  instructions raise, since flags are only ever added.
\<close>

theorem flags_only_idempotent:
  assumes "enable m = {}" and "control m = Running"
  shows "flag (run raises cfg C fex (run raises cfg C fex m)) = flag (run raises cfg C fex m) \<and>
         control (run raises cfg C fex (run raises cfg C fex m)) = Running \<and>
         control (run raises cfg C fex m) = Running"
proof -
  let ?t = "trace cfg C fex"
  let ?m = "run raises cfg C fex m"
  have one: "?m = m\<lparr>flag := flag m \<union> \<Union> (raises ` set ?t), executed := executed m @ ?t\<rparr>"
    unfolding run_fold using assms by (rule fold_fpu_asm_flags_only)
  then have e: "enable ?m = {}" and c: "control ?m = Running"
    using assms by simp_all
  have two: "run raises cfg C fex ?m =
      ?m\<lparr>flag := flag ?m \<union> \<Union> (raises ` set ?t), executed := executed ?m @ ?t\<rparr>"
    unfolding run_fold [of raises cfg C fex ?m] using e c by (rule fold_fpu_asm_flags_only)
  have "flag (run raises cfg C fex ?m) = flag ?m \<union> \<Union> (raises ` set ?t)"
    by (subst two) simp
  also have "\<dots> = flag ?m"
    by (subst (1 2) one) auto
  finally show ?thesis
    using c by (simp add: two)
qed

theorem flags_only_idempotent_witness:
  "flag (run spec_raises cfg_full example_fp_ex 16
           (run spec_raises cfg_full example_fp_ex 16 flags_only_fpu)) = {OVERFLOW} \<and>
   flag (run spec_raises cfg_full example_fp_ex 16 flags_only_fpu) = {OVERFLOW}"
proof -
  have a: "enable flags_only_fpu = {}" and b: "control flags_only_fpu = Running"
    by (simp_all add: flags_only_fpu_def)
  have "flag (run spec_raises cfg_full example_fp_ex 16 flags_only_fpu) = {OVERFLOW}"
    by (simp add: run_def sfp_handle_exceptions_def cfg_full_def example_fp_ex_def
        flags_only_fpu_def fpu_asm_def spec_raises_def program_order_def)
  then show ?thesis
    using flags_only_idempotent [OF a b, of spec_raises cfg_full example_fp_ex 16] by simp
qed

section \<open>Operations and operands\<close>

text \<open>
  C8. The arithmetic performed, in order, is that of the requested and compiled-in kinds
  among: INEXACT divides 1.0 by 3.0; UNDERFLOW divides \<open>__LDBL_MIN__\<close> by 10;
  OVERFLOW multiplies \<open>__LDBL_MAX__\<close> by itself; DIVIDE-BY-ZERO divides 1.0 by 0.0;
  INVALID multiplies \<open>HUGE_VAL\<close> by 0.0.
\<close>

theorem trigger_operations:
  "map arith_of (trace cfg C fex) =
     map snd (filter (\<lambda>(k, a). supported cfg k \<and> requested C fex k)
       [(INEXACT, Divide (Var Double (Lit 1)) (Var Double (Lit 3))),
        (UNDERFLOW, Divide (Var Long_double Ldbl_min) (Var Long_double (Lit 10))),
        (OVERFLOW, Multiply (Var Long_double Ldbl_max) (Var Long_double Ldbl_max)),
        (DIVZERO, Divide (Var Double (Lit 1)) (Var Double (Lit 0))),
        (INVALID, Multiply (Var Double Huge_val) (Var Double (Lit 0)))])"
  by (simp add: trace_filter program_order_def)

theorem trigger_operations_witness:
  "map arith_of (trace cfg_full example_fp_ex 124) =
     [Divide (Var Double (Lit 1)) (Var Double (Lit 3)),
      Divide (Var Long_double Ldbl_min) (Var Long_double (Lit 10)),
      Multiply (Var Long_double Ldbl_max) (Var Long_double Ldbl_max),
      Divide (Var Double (Lit 1)) (Var Double (Lit 0)),
      Multiply (Var Double Huge_val) (Var Double (Lit 0))]"
  using trigger_operations [of cfg_full example_fp_ex 124]
  by (simp add: cfg_full_def requested_def example_fp_ex_def)

section \<open>The mask\<close>

text \<open>
  C9. The routine does not validate its mask: on every machine and for every mask it
  behaves as on the mask restricted to the five constants. A bit outside them is tested
  by no check.
\<close>

theorem unrecognized_bits_ignored:
  "sfp_handle_exceptions asm cfg C fex m =
     sfp_handle_exceptions asm cfg C (fex AND recognized C) m"
  by (simp add: sfp_handle_exceptions_fold trace_filter requested_restrict)

theorem unrecognized_bits_ignored_witness:
  "run spec_raises cfg_full example_fp_ex 195 flags_only_fpu =
     run spec_raises cfg_full example_fp_ex 64 flags_only_fpu"
proof -
  have "(195::c_int) AND recognized example_fp_ex = 64"
    by (simp add: recognized_def example_fp_ex_def)
  then show ?thesis
    using unrecognized_bits_ignored
      [of "fpu_asm spec_raises" cfg_full example_fp_ex 195 flags_only_fpu]
    by (simp add: run_def)
qed

text \<open>
  C10. On a unit with no trap enabled, the trigger of a kind is executed exactly when its
  check is compiled in and its own test succeeds; the set of instructions executed on
  \<open>a | b\<close> is the union of those executed on \<open>a\<close> and on \<open>b\<close>, so it grows with
  the mask.
\<close>

theorem executed_set_or:
  assumes "enable m = {}" and "control m = Running" and "executed m = []"
  shows "set (executed (run raises cfg C (a OR b) m)) =
           set (executed (run raises cfg C a m)) \<union> set (executed (run raises cfg C b m)) \<and>
         (\<forall>k. trigger k \<in> set (executed (run raises cfg C a m)) \<longleftrightarrow>
                supported cfg k \<and> requested C a k) \<and>
         (a OR b = b \<longrightarrow>
            set (executed (run raises cfg C a m)) \<subseteq> set (executed (run raises cfg C b m)))"
proof -
  have ex: "executed (run raises cfg C fex m) = trace cfg C fex" for fex
    unfolding run_fold using assms
    by (simp add: fold_fpu_asm_flags_only)
  have u: "set (trace cfg C (a OR b)) = set (trace cfg C a) \<union> set (trace cfg C b)"
    by (auto simp add: trace_filter requested_or)
  have mono: "set (trace cfg C a) \<subseteq> set (trace cfg C b)" if "a OR b = b"
    using u that by auto
  show ?thesis
    using u mono by (simp add: ex trigger_in_trace)
qed

theorem executed_set_or_witness:
  "set (executed (run spec_raises cfg_full example_fp_ex (4 OR 32) flags_only_fpu)) =
     set (executed (run spec_raises cfg_full example_fp_ex 4 flags_only_fpu)) \<union>
     set (executed (run spec_raises cfg_full example_fp_ex 32 flags_only_fpu)) \<and>
   set (executed (run spec_raises cfg_full example_fp_ex 4 flags_only_fpu)) = {trigger INEXACT}"
proof -
  have a: "enable flags_only_fpu = {}" and b: "control flags_only_fpu = Running"
    and c: "executed flags_only_fpu = []"
    by (simp_all add: flags_only_fpu_def)
  have "executed (run spec_raises cfg_full example_fp_ex 4 flags_only_fpu) = [trigger INEXACT]"
    by (simp add: run_def sfp_handle_exceptions_def cfg_full_def example_fp_ex_def
        flags_only_fpu_def fpu_asm_def)
  then show ?thesis
    using executed_set_or [OF a b c, of spec_raises cfg_full example_fp_ex 4 32] by simp
qed

end
